theory Spec2Isabelle
  imports Complex_Main "HOL-Library.AList"
begin

section \<open>JavaScript values\<close>

text \<open>
  The sync handlers of \<^verbatim>\<open>server.js\<close> work on what \<^verbatim>\<open>express.json()\<close> parsed from the
  request body and on what earlier requests left in \<^verbatim>\<open>memoryStore\<close>: JSON values, plus
  \<^verbatim>\<open>undefined\<close>, which a read of a missing property yields and which
  \<^verbatim>\<open>i.isDeleted || existing.isDeleted\<close> can store.

  \<^item> A number is the exact rational value of the (finite) double; \<^verbatim>\<open>+0\<close> and \<^verbatim>\<open>-0\<close>
    are one value, as they are for \<^verbatim>\<open>===\<close>, for \<^verbatim>\<open>Map\<close> keys and for truthiness.
  \<^item> An object is the list of its own properties in property order; a property read
    takes the first binding of a name.
\<close>

datatype jsval =
    Undefined
  | Null
  | Bool bool
  | Num rat
  | Str string
  | Arr "jsval list"
  | Obj "(string \<times> jsval) list"

text \<open>A thrown exception: a \<^verbatim>\<open>TypeError\<close> of the engine, or the \<^verbatim>\<open>Error\<close> of a write to
  the key-value service that failed. The message text is not modelled.\<close>

datatype exn = TypeError | Error

text \<open>Sequencing of computations that may throw.\<close>

definition andThen :: "exn + 'a \<Rightarrow> ('a \<Rightarrow> exn + 'b) \<Rightarrow> exn + 'b" where
  "andThen r f = (case r of Inl e \<Rightarrow> Inl e | Inr x \<Rightarrow> f x)"

text \<open>ToBoolean: the falsy values are \<^verbatim>\<open>undefined\<close>, \<^verbatim>\<open>null\<close>, \<^verbatim>\<open>false\<close>, \<^verbatim>\<open>0\<close> and
  \<^verbatim>\<open>""\<close> (\<^verbatim>\<open>NaN\<close> is not a JSON value).\<close>

fun truthy :: "jsval \<Rightarrow> bool" where
  "truthy Undefined = False"
| "truthy Null = False"
| "truthy (Bool b) = b"
| "truthy (Num n) = (n \<noteq> 0)"
| "truthy (Str s) = (s \<noteq> [])"
| "truthy (Arr xs) = True"
| "truthy (Obj fs) = True"

text \<open>\<^verbatim>\<open>a || b\<close>: the left operand when it is truthy, the right one otherwise.\<close>

definition jsOr :: "jsval \<Rightarrow> jsval \<Rightarrow> jsval" where
  "jsOr a b = (if truthy a then a else b)"

text \<open>Arrays and objects are references; everything else is a primitive.\<close>

fun isObject :: "jsval \<Rightarrow> bool" where
  "isObject (Arr xs) = True"
| "isObject (Obj fs) = True"
| "isObject v = False"

fun nullish :: "jsval \<Rightarrow> bool" where
  "nullish Undefined = True"
| "nullish Null = True"
| "nullish v = False"

text \<open>The own property \<open>name\<close> of an object, \<^verbatim>\<open>undefined\<close> when it has none.\<close>

definition field :: "(string \<times> jsval) list \<Rightarrow> string \<Rightarrow> jsval" where
  "field fs name = (case map_of fs name of None \<Rightarrow> Undefined | Some v \<Rightarrow> v)"

text \<open>
  The value of \<^verbatim>\<open>v.name\<close> for a \<open>v\<close> that is neither \<^verbatim>\<open>null\<close> nor \<^verbatim>\<open>undefined\<close>, for the
  names the handlers read (\<^verbatim>\<open>id\<close>, \<^verbatim>\<open>isDeleted\<close>, \<^verbatim>\<open>updatedAt\<close>, \<^verbatim>\<open>cardId\<close>, \<^verbatim>\<open>date\<close>,
  \<^verbatim>\<open>rating\<close>, \<^verbatim>\<open>decks\<close>, \<^verbatim>\<open>cards\<close>, \<^verbatim>\<open>studyHistory\<close>, \<^verbatim>\<open>userProfile\<close>,
  \<^verbatim>\<open>userAchievements\<close>): none of them is inherited from a prototype, so an array, a
  string, a number and a boolean have none of them.
\<close>

fun readProp :: "jsval \<Rightarrow> string \<Rightarrow> jsval" where
  "readProp (Obj fs) name = field fs name"
| "readProp v name = Undefined"

text \<open>\<^verbatim>\<open>v.name\<close>: reading a property of \<^verbatim>\<open>null\<close> or \<^verbatim>\<open>undefined\<close> throws.\<close>

definition getProp :: "jsval \<Rightarrow> string \<Rightarrow> exn + jsval" where
  "getProp v name = (if nullish v then Inl TypeError else Inr (readProp v name))"

text \<open>
  SameValueZero, the equality of \<^verbatim>\<open>Map\<close> keys: primitives are compared by value, arrays
  and objects by reference. Every array and object here comes from a parse of its own
  (the request body, or an earlier request's body kept in the store), so no two keys
  that meet in one \<^verbatim>\<open>Map\<close> are the same reference: a key that is an array or an object
  equals none.
\<close>

definition sameValueZero :: "jsval \<Rightarrow> jsval \<Rightarrow> bool" where
  "sameValueZero a b = (\<not> isObject a \<and> a = b)"

text \<open>
  \<^verbatim>\<open>a === b\<close>. Primitives are compared by value, arrays and objects by reference;
  \<open>same\<close> tells whether the two operands were read from the same property of the same
  object, the only way two of them can be one reference.
\<close>

definition strictEquals :: "bool \<Rightarrow> jsval \<Rightarrow> jsval \<Rightarrow> bool" where
  "strictEquals same a b = (if isObject a then same \<and> a = b else a = b)"

section \<open>The \<^verbatim>\<open>Map\<close> of \<^verbatim>\<open>mergeLists\<close>\<close>

text \<open>A \<^verbatim>\<open>Map\<close> is the list of its entries in insertion order. \<^verbatim>\<open>get\<close> yields
  \<^verbatim>\<open>undefined\<close> for a missing key; \<^verbatim>\<open>set\<close> replaces the value of a key in place and
  appends a new key.\<close>

type_synonym jsmap = "(jsval \<times> jsval) list"

fun mapGet :: "jsmap \<Rightarrow> jsval \<Rightarrow> jsval" where
  "mapGet [] k = Undefined"
| "mapGet ((k', v) # m) k = (if sameValueZero k' k then v else mapGet m k)"

fun mapSet :: "jsmap \<Rightarrow> jsval \<Rightarrow> jsval \<Rightarrow> jsmap" where
  "mapSet [] k v = [(k, v)]"
| "mapSet ((k', v') # m) k v =
     (if sameValueZero k' k then (k', v) # m else (k', v') # mapSet m k v)"

section \<open>Timestamps\<close>

text \<open>
  A time value is \<open>Some\<close> of a number of milliseconds, or \<open>None\<close> for \<^verbatim>\<open>NaN\<close>.
  TimeClip: a number beyond \<open>8.64e15\<close> in magnitude is no time; any other is truncated
  towards zero.
\<close>

definition timeClip :: "rat \<Rightarrow> int option" where
  "timeClip t =
     (if \<bar>t\<bar> \<le> 8640000000000000 then Some (if 0 \<le> t then \<lfloor>t\<rfloor> else \<lceil>t\<rceil>) else None)"

text \<open>
  \<^verbatim>\<open>new Date(v)\<close> first converts an array or an object to a primitive (ToPrimitive), and
  the conversion can throw. A parsed object inherits \<^verbatim>\<open>valueOf\<close> and \<^verbatim>\<open>toString\<close>; the
  inherited \<^verbatim>\<open>valueOf\<close> returns the object itself, so the string comes from \<^verbatim>\<open>toString\<close>.
  An own property named \<^verbatim>\<open>toString\<close> shadows the inherited method with a value that is
  not callable, and then no method is left: a \<^verbatim>\<open>TypeError\<close>. An array is joined, which
  converts its elements in the same way.
\<close>

fun toPrimitiveThrows :: "jsval \<Rightarrow> bool" where
  "toPrimitiveThrows (Obj fs) = (''toString'' \<in> set (map fst fs))"
| "toPrimitiveThrows (Arr xs) = list_ex toPrimitiveThrows xs"
| "toPrimitiveThrows v = False"

text \<open>
  \<^verbatim>\<open>new Date(v).getTime()\<close>. A number is clipped, \<^verbatim>\<open>true\<close>, \<^verbatim>\<open>false\<close> and \<^verbatim>\<open>null\<close>
  convert to the numbers 1, 0 and 0, \<^verbatim>\<open>undefined\<close> to \<^verbatim>\<open>NaN\<close>. A string goes to
  \<^verbatim>\<open>Date.parse\<close>; an array or an object is converted to a string first, which throws
  or gives a string for \<^verbatim>\<open>Date.parse\<close>. What the engine reads out of a string, and out
  of the string form of an array or object, is the parameter \<open>parse\<close>.
\<close>

fun getTime :: "(jsval \<Rightarrow> int option) \<Rightarrow> jsval \<Rightarrow> exn + int option" where
  "getTime parse Undefined = Inr None"
| "getTime parse Null = Inr (Some 0)"
| "getTime parse (Bool b) = Inr (Some (if b then 1 else 0))"
| "getTime parse (Num n) = Inr (timeClip n)"
| "getTime parse (Str s) = Inr (parse (Str s))"
| "getTime parse v = (if toPrimitiveThrows v then Inl TypeError else Inr (parse v))"

text \<open>\<^verbatim>\<open>a >= b\<close> on time values: false as soon as one of them is \<^verbatim>\<open>NaN\<close>.\<close>

fun geq :: "int option \<Rightarrow> int option \<Rightarrow> bool" where
  "geq (Some a) (Some b) = (b \<le> a)"
| "geq a b = False"

section \<open>Object spread\<close>

text \<open>The decimal form of an array index, as a property name.\<close>

fun decimal :: "nat \<Rightarrow> string" where
  "decimal n =
     (if n < 10 then [''0123456789'' ! n]
      else decimal (n div 10) @ [''0123456789'' ! (n mod 10)])"

text \<open>
  The own enumerable properties that \<^verbatim>\<open>{...v}\<close> copies: those of an object, the indexed
  elements of an array, the indexed characters of a string, none of any other
  primitive.
\<close>

fun ownProps :: "jsval \<Rightarrow> (string \<times> jsval) list" where
  "ownProps (Obj fs) = fs"
| "ownProps (Arr xs) = zip (map decimal [0..<length xs]) xs"
| "ownProps (Str s) = zip (map decimal [0..<length s]) (map (\<lambda>c. Str [c]) s)"
| "ownProps v = []"

text \<open>\<^verbatim>\<open>{ ...winner, isDeleted }\<close>: the property keeps its place when the winner has it
  and is added last otherwise.\<close>

definition withIsDeleted :: "jsval \<Rightarrow> jsval \<Rightarrow> jsval" where
  "withIsDeleted winner isDeleted = Obj (AList.update ''isDeleted'' isDeleted (ownProps winner))"

section \<open>\<^verbatim>\<open>mergeLists\<close>\<close>

text \<open>The receiver of \<^verbatim>\<open>.forEach\<close>: an array; on any other (truthy) value \<^verbatim>\<open>forEach\<close> is
  \<^verbatim>\<open>undefined\<close> and the call throws.\<close>

fun elements :: "jsval \<Rightarrow> exn + jsval list" where
  "elements (Arr xs) = Inr xs"
| "elements v = Inl TypeError"

text \<open>\<^verbatim>\<open>(cloudList || []).forEach(i => map.set(i.id, i))\<close>\<close>

fun seed :: "jsmap \<Rightarrow> jsval list \<Rightarrow> exn + jsmap" where
  "seed m [] = Inr m"
| "seed m (i # rest) = andThen (getProp i ''id'') (\<lambda>k. seed (mapSet m k i) rest)"

text \<open>The body of the second \<^verbatim>\<open>forEach\<close>, for one client entity \<open>i\<close>.\<close>

definition mergeEntity :: "(jsval \<Rightarrow> int option) \<Rightarrow> jsmap \<Rightarrow> jsval \<Rightarrow> exn + jsmap" where
  "mergeEntity parse m i =
     andThen (getProp i ''id'') (\<lambda>k.
       let existing = mapGet m k in
       if truthy existing then
         andThen (getProp i ''isDeleted'') (\<lambda>iDel.
         andThen (getProp existing ''isDeleted'') (\<lambda>eDel.
           let isDeleted = jsOr iDel eDel in
           andThen (getProp i ''updatedAt'') (\<lambda>iUpd.
           andThen (getTime parse (jsOr iUpd (Num 0))) (\<lambda>clientTime.
           andThen (getProp existing ''updatedAt'') (\<lambda>eUpd.
           andThen (getTime parse (jsOr eUpd (Num 0))) (\<lambda>cloudTime.
             let winner = (if geq clientTime cloudTime then i else existing)
             in Inr (mapSet m k (withIsDeleted winner isDeleted))))))))
       else Inr (mapSet m k i))"

fun mergeAll :: "(jsval \<Rightarrow> int option) \<Rightarrow> jsmap \<Rightarrow> jsval list \<Rightarrow> exn + jsmap" where
  "mergeAll parse m [] = Inr m"
| "mergeAll parse m (i # rest) =
     andThen (mergeEntity parse m i) (\<lambda>m'. mergeAll parse m' rest)"

definition mergeLists :: "(jsval \<Rightarrow> int option) \<Rightarrow> jsval \<Rightarrow> jsval \<Rightarrow> exn + jsval" where
  "mergeLists parse cloudList clientList =
     andThen (elements (jsOr cloudList (Arr []))) (\<lambda>cloud.
     andThen (seed [] cloud) (\<lambda>m.
     andThen (elements (jsOr clientList (Arr []))) (\<lambda>client.
     andThen (mergeAll parse m client) (\<lambda>m'.
       Inr (Arr (map snd m'))))))"

section \<open>The study history\<close>

text \<open>What the array spread \<^verbatim>\<open>[...x]\<close> iterates: the elements of an array, the
  characters of a string; any other (truthy) value is not iterable.\<close>

fun iterate :: "jsval \<Rightarrow> exn + jsval list" where
  "iterate (Arr xs) = Inr xs"
| "iterate (Str s) = Inr (map (\<lambda>c. Str [c]) s)"
| "iterate v = Inl TypeError"

text \<open>
  \<^verbatim>\<open>t.cardId === v.cardId && t.date === v.date && t.rating === v.rating\<close>, where
  \<open>same\<close> tells whether \<open>t\<close> and \<open>v\<close> are the same element of the array.
\<close>

definition sameEntry :: "bool \<Rightarrow> jsval \<Rightarrow> jsval \<Rightarrow> exn + bool" where
  "sameEntry same t v =
     andThen (getProp t ''cardId'') (\<lambda>tc.
     andThen (getProp v ''cardId'') (\<lambda>vc.
       if \<not> strictEquals same tc vc then Inr False
       else
         andThen (getProp t ''date'') (\<lambda>td.
         andThen (getProp v ''date'') (\<lambda>vd.
           if \<not> strictEquals same td vd then Inr False
           else
             andThen (getProp t ''rating'') (\<lambda>tr.
             andThen (getProp v ''rating'') (\<lambda>vr.
               Inr (strictEquals same tr vr)))))))"

text \<open>\<^verbatim>\<open>a.findIndex(p)\<close>, scanning from index \<open>j\<close>: the first index whose element
  satisfies \<open>p\<close>, or \<open>-1\<close>.\<close>

fun findIndex :: "(nat \<Rightarrow> jsval \<Rightarrow> exn + bool) \<Rightarrow> nat \<Rightarrow> jsval list \<Rightarrow> exn + int" where
  "findIndex p j [] = Inr (- 1)"
| "findIndex p j (t # ts) =
     andThen (p j t) (\<lambda>found. if found then Inr (int j) else findIndex p (Suc j) ts)"

text \<open>\<^verbatim>\<open>a.filter((v, i, a) => a.findIndex(t => ...) === i)\<close>, from index \<open>i\<close> on.\<close>

fun uniqueLogs :: "jsval list \<Rightarrow> nat \<Rightarrow> jsval list \<Rightarrow> exn + jsval list" where
  "uniqueLogs a i [] = Inr []"
| "uniqueLogs a i (v # rest) =
     andThen (findIndex (\<lambda>j t. sameEntry (j = i) t v) 0 a) (\<lambda>r.
     andThen (uniqueLogs a (Suc i) rest) (\<lambda>kept.
       Inr (if r = int i then v # kept else kept)))"

definition mergeStudyHistory :: "jsval \<Rightarrow> jsval \<Rightarrow> exn + jsval" where
  "mergeStudyHistory cloudHistory clientHistory =
     andThen (iterate (jsOr cloudHistory (Arr []))) (\<lambda>cloud.
     andThen (iterate (jsOr clientHistory (Arr []))) (\<lambda>client.
     andThen (uniqueLogs (cloud @ client) 0 (cloud @ client)) (\<lambda>logs.
       Inr (Arr logs))))"

section \<open>The merged bundle\<close>

definition emptyData :: jsval where
  "emptyData = Obj [(''decks'', Arr []), (''cards'', Arr []), (''studyHistory'', Arr []),
     (''userProfile'', Null), (''userAchievements'', Arr [])]"

text \<open>The object literal assigned to \<^verbatim>\<open>user.data\<close> in \<^verbatim>\<open>handleSyncMerge\<close>, its properties
  evaluated in source order.\<close>

definition mergeData :: "(jsval \<Rightarrow> int option) \<Rightarrow> jsval \<Rightarrow> jsval \<Rightarrow> exn + jsval" where
  "mergeData parse cloudData clientData =
     andThen (getProp cloudData ''decks'') (\<lambda>cloudDecks.
     andThen (getProp clientData ''decks'') (\<lambda>clientDecks.
     andThen (mergeLists parse cloudDecks clientDecks) (\<lambda>decks.
     andThen (getProp cloudData ''cards'') (\<lambda>cloudCards.
     andThen (getProp clientData ''cards'') (\<lambda>clientCards.
     andThen (mergeLists parse cloudCards clientCards) (\<lambda>cards.
     andThen (getProp cloudData ''studyHistory'') (\<lambda>cloudHistory.
     andThen (getProp clientData ''studyHistory'') (\<lambda>clientHistory.
     andThen (mergeStudyHistory cloudHistory clientHistory) (\<lambda>studyHistory.
     andThen (getProp clientData ''userProfile'') (\<lambda>clientProfile.
     andThen (if truthy clientProfile then Inr clientProfile
              else getProp cloudData ''userProfile'') (\<lambda>userProfile.
     andThen (getProp cloudData ''userAchievements'') (\<lambda>cloudAchievements.
     andThen (getProp clientData ''userAchievements'') (\<lambda>clientAchievements.
     andThen (mergeLists parse cloudAchievements clientAchievements) (\<lambda>userAchievements.
       Inr (Obj [(''decks'', decks), (''cards'', cards), (''studyHistory'', studyHistory),
         (''userProfile'', userProfile),
         (''userAchievements'', userAchievements)])))))))))))))))"

section \<open>JSON text\<close>

text \<open>
  What \<^verbatim>\<open>JSON.stringify\<close> writes and \<^verbatim>\<open>JSON.parse\<close> reads back: a property whose value
  is \<^verbatim>\<open>undefined\<close> is left out, an \<^verbatim>\<open>undefined\<close> array element becomes \<^verbatim>\<open>null\<close>. It is
  what \<^verbatim>\<open>res.json\<close> sends, and what the key-value service keeps of a record.
\<close>

fun toJSON :: "jsval \<Rightarrow> jsval" where
  "toJSON (Arr xs) = Arr (map (\<lambda>x. if x = Undefined then Null else toJSON x) xs)"
| "toJSON (Obj fs) = Obj (map (\<lambda>(k, v). (k, toJSON v)) (filter (\<lambda>(k, v). v \<noteq> Undefined) fs))"
| "toJSON v = v"

section \<open>The user store\<close>

text \<open>A stored user record, as \<^verbatim>\<open>handleRegister\<close> creates it.\<close>

record user =
  username :: jsval
  password :: jsval
  data :: jsval

text \<open>
  The two backends: \<^verbatim>\<open>memoryStore\<close>, and the contents of the external key-value
  service, each a map from keys to records. The copy of \<^verbatim>\<open>memoryStore\<close> that
  \<^verbatim>\<open>saveLocalDb\<close> writes to a file is best effort (its failures are swallowed) and leaves
  the \<^verbatim>\<open>Map\<close> as it is.
\<close>

record stores =
  memoryStore :: "string \<Rightarrow> user option"
  kvStore :: "string \<Rightarrow> user option"

text \<open>
  What a request meets outside the process: whether the key-value service is
  configured (\<^verbatim>\<open>KV_URL && KV_TOKEN\<close>), whether the \<^verbatim>\<open>GET\<close> of \<^verbatim>\<open>getUser\<close> is answered
  (with an ok status and a body that parses), and whether the \<^verbatim>\<open>POST\<close> of \<^verbatim>\<open>setUser\<close> is
  answered with an ok status. A handler makes at most one of each.
\<close>

record env =
  kvConfigured :: bool
  readOk :: bool
  writeOk :: bool

text \<open>
  \<^verbatim>\<open>`user:${username.toLowerCase()}`\<close>: only a string has the method. The method is the
  engine's and lowercases every cased letter of Unicode; it is the parameter
  \<open>toLowerCase\<close>.
\<close>

fun getUserKey :: "(string \<Rightarrow> string) \<Rightarrow> jsval \<Rightarrow> exn + string" where
  "getUserKey toLowerCase (Str s) = Inr (''user:'' @ toLowerCase s)"
| "getUserKey toLowerCase v = Inl TypeError"

text \<open>
  \<^verbatim>\<open>getUser\<close>. With the service configured, a request that fails, a status that is not
  ok and a body that does not parse all give \<^verbatim>\<open>null\<close>, as a missing key does.
\<close>

definition getUser :: "env \<Rightarrow> (string \<Rightarrow> string) \<Rightarrow> stores \<Rightarrow> jsval \<Rightarrow> exn + user option" where
  "getUser env toLowerCase st name =
     andThen (getUserKey toLowerCase name) (\<lambda>key.
       if kvConfigured env then (if readOk env then Inr (kvStore st key) else Inr None)
       else Inr (memoryStore st key))"

text \<open>The record that \<^verbatim>\<open>JSON.parse\<close> reads back from what \<^verbatim>\<open>JSON.stringify(userData)\<close>
  wrote.\<close>

definition stringified :: "user \<Rightarrow> user" where
  "stringified u =
     \<lparr>username = toJSON (username u), password = toJSON (password u), data = toJSON (data u)\<rparr>"

text \<open>
  \<^verbatim>\<open>setUser\<close>. With the service configured, a request that fails and a status that is
  not ok throw, and nothing is written.
\<close>

definition setUser :: "env \<Rightarrow> (string \<Rightarrow> string) \<Rightarrow> user \<Rightarrow> stores \<Rightarrow> exn + stores" where
  "setUser env toLowerCase userData st =
     andThen (getUserKey toLowerCase (username userData)) (\<lambda>key.
       if kvConfigured env then
         (if writeOk env then Inr (st\<lparr>kvStore := (kvStore st)(key \<mapsto> stringified userData)\<rparr>)
          else Inl Error)
       else Inr (st\<lparr>memoryStore := (memoryStore st)(key \<mapsto> userData)\<rparr>))"

section \<open>Responses\<close>

text \<open>A response body: a JSON value, or \<^verbatim>\<open>{ error: e.message }\<close> for a caught
  exception \<open>e\<close>.\<close>

datatype body = Json jsval | ErrorMessage exn

type_synonym response = "nat \<times> body"

definition errorBody :: "string \<Rightarrow> body" where
  "errorBody msg = Json (Obj [(''error'', Str msg)])"

definition messageBody :: "string \<Rightarrow> body" where
  "messageBody msg = Json (Obj [(''message'', Str msg)])"

section \<open>The handlers\<close>

text \<open>A handler takes the payload (the request body without \<^verbatim>\<open>action\<close>, an object) and
  the stores; it returns or throws, and leaves the stores.\<close>

definition handleRegister ::
  "env \<Rightarrow> (string \<Rightarrow> string) \<Rightarrow> (string \<times> jsval) list \<Rightarrow> stores \<Rightarrow> (exn + response) \<times> stores" where
  "handleRegister env toLowerCase payload st =
     (let name = field payload ''username''; pass = field payload ''password'' in
      if \<not> truthy name \<or> \<not> truthy pass then (Inr (400, errorBody ''Required fields missing''), st)
      else
        case getUser env toLowerCase st name of
          Inl e \<Rightarrow> (Inl e, st)
        | Inr (Some existingUser) \<Rightarrow> (Inr (409, errorBody ''Username taken''), st)
        | Inr None \<Rightarrow>
            let newUser = \<lparr>username = name, password = pass, data = emptyData\<rparr> in
            (case setUser env toLowerCase newUser st of
               Inl e \<Rightarrow> (Inl e, st)
             | Inr st' \<Rightarrow> (Inr (201, messageBody ''Registered''), st')))"

definition handleLogin ::
  "env \<Rightarrow> (string \<Rightarrow> string) \<Rightarrow> (string \<times> jsval) list \<Rightarrow> stores \<Rightarrow> (exn + response) \<times> stores" where
  "handleLogin env toLowerCase payload st =
     (let name = field payload ''username''; pass = field payload ''password'' in
      case getUser env toLowerCase st name of
        Inl e \<Rightarrow> (Inl e, st)
      | Inr None \<Rightarrow> (Inr (401, errorBody ''Invalid credentials''), st)
      | Inr (Some u) \<Rightarrow>
          if \<not> strictEquals False (password u) pass
          then (Inr (401, errorBody ''Invalid credentials''), st)
          else (Inr (200, messageBody ''Logged in''), st))"

definition handleSyncLoad ::
  "env \<Rightarrow> (string \<Rightarrow> string) \<Rightarrow> (string \<times> jsval) list \<Rightarrow> stores \<Rightarrow> (exn + response) \<times> stores" where
  "handleSyncLoad env toLowerCase payload st =
     (let name = field payload ''username'' in
      case getUser env toLowerCase st name of
        Inl e \<Rightarrow> (Inl e, st)
      | Inr None \<Rightarrow> (Inr (200, Json (toJSON (Obj [(''data'', Null)]))), st)
      | Inr (Some u) \<Rightarrow> (Inr (200, Json (toJSON (Obj [(''data'', data u)]))), st))"

text \<open>
  The assignment \<^verbatim>\<open>user.data = ...\<close> of \<^verbatim>\<open>handleSyncMerge\<close>. Without the service, the
  record that \<^verbatim>\<open>getUser\<close> returned is the object held by \<^verbatim>\<open>memoryStore\<close>, so the
  assignment changes the stored record under the key it was read from, before
  \<^verbatim>\<open>setUser\<close> stores it under the key of its own username. With the service, the
  record is a fresh parse and the assignment touches no store.
\<close>

definition assignData ::
  "env \<Rightarrow> (string \<Rightarrow> string) \<Rightarrow> jsval \<Rightarrow> user \<Rightarrow> stores \<Rightarrow> stores" where
  "assignData env toLowerCase name u st =
     (if kvConfigured env then st
      else case getUserKey toLowerCase name of
        Inl e \<Rightarrow> st
      | Inr key \<Rightarrow> st\<lparr>memoryStore := (memoryStore st)(key \<mapsto> u)\<rparr>)"

text \<open>The assignment happens only once the whole object literal has been evaluated.\<close>

definition handleSyncMerge ::
  "env \<Rightarrow> (string \<Rightarrow> string) \<Rightarrow> (jsval \<Rightarrow> int option) \<Rightarrow> (string \<times> jsval) list \<Rightarrow> stores
    \<Rightarrow> (exn + response) \<times> stores" where
  "handleSyncMerge env toLowerCase parse payload st =
     (let name = field payload ''username''; clientData = field payload ''data'' in
      case getUser env toLowerCase st name of
        Inl e \<Rightarrow> (Inl e, st)
      | Inr None \<Rightarrow> (Inr (404, errorBody ''User not found''), st)
      | Inr (Some u) \<Rightarrow>
          let cloudData = jsOr (data u) emptyData in
          (case mergeData parse cloudData clientData of
             Inl e \<Rightarrow> (Inl e, st)
           | Inr merged \<Rightarrow>
               let u' = u\<lparr>data := merged\<rparr>; st1 = assignData env toLowerCase name u' st in
               (case setUser env toLowerCase u' st1 of
                  Inl e \<Rightarrow> (Inl e, st1)
                | Inr st2 \<Rightarrow> (Inr (200, Json (toJSON (Obj [(''data'', data u')]))), st2))))"

section \<open>The router\<close>

text \<open>
  \<^verbatim>\<open>app.post('/api/proxy')\<close> for the actions that touch only the stores: \<^verbatim>\<open>action\<close> is
  taken out of the body, the rest is the payload, and an exception of the handler is
  answered with status 500. The actions that call an upstream service are outside
  this model (\<open>None\<close>).
\<close>

definition caught :: "(exn + response) \<times> stores \<Rightarrow> response \<times> stores" where
  "caught r = (case r of (Inl e, st) \<Rightarrow> ((500, ErrorMessage e), st) | (Inr resp, st) \<Rightarrow> (resp, st))"

definition upstreamActions :: "jsval list" where
  "upstreamActions = [Str ''gemini-generate'', Str ''dictionary-free'', Str ''dictionary-mw'',
     Str ''fetch-audio'']"

definition proxy ::
  "env \<Rightarrow> (string \<Rightarrow> string) \<Rightarrow> (jsval \<Rightarrow> int option) \<Rightarrow> (string \<times> jsval) list \<Rightarrow> stores
    \<Rightarrow> (response \<times> stores) option" where
  "proxy env toLowerCase parse reqBody st =
     (let action = field reqBody ''action''; payload = AList.delete ''action'' reqBody in
      if action = Str ''ping'' then Some ((200, messageBody ''pong''), st)
      else if action \<in> set upstreamActions then None
      else if action = Str ''auth-register''
        then Some (caught (handleRegister env toLowerCase payload st))
      else if action = Str ''auth-login''
        then Some (caught (handleLogin env toLowerCase payload st))
      else if action = Str ''sync-load''
        then Some (caught (handleSyncLoad env toLowerCase payload st))
      else if action = Str ''sync-merge''
        then Some (caught (handleSyncMerge env toLowerCase parse payload st))
      else if action = Str ''ping-free-dict'' \<or> action = Str ''ping-mw''
        then Some ((200, messageBody ''pong''), st)
      else Some ((400, errorBody ''Invalid action''), st))"

section \<open>The vocabulary of the claims\<close>

text \<open>
  A reconcilable entity: an object whose \<^verbatim>\<open>id\<close> and \<^verbatim>\<open>updatedAt\<close> are primitive values (a
  string, a number, a boolean, \<^verbatim>\<open>null\<close>) or absent.
\<close>

fun entity :: "jsval \<Rightarrow> bool" where
  "entity (Obj fs) = (\<not> isObject (field fs ''id'') \<and> \<not> isObject (field fs ''updatedAt''))"
| "entity v = False"

definition idOf :: "jsval \<Rightarrow> jsval" where
  "idOf v = readProp v ''id''"

text \<open>\<^verbatim>\<open>new Date(v.updatedAt || 0).getTime()\<close>, the time \<^verbatim>\<open>mergeLists\<close> compares, for an
  entity \<open>v\<close> (where the conversion does not throw).\<close>

definition timeOf :: "(jsval \<Rightarrow> int option) \<Rightarrow> jsval \<Rightarrow> int option" where
  "timeOf parse v =
     (case getTime parse (jsOr (readProp v ''updatedAt'') (Num 0)) of
        Inl e \<Rightarrow> None
      | Inr t \<Rightarrow> t)"

text \<open>What \<^verbatim>\<open>mergeLists\<close> stores for a client entity \<open>i\<close> that meets the entity
  \<open>existing\<close> under its id.\<close>

definition reconciled :: "(jsval \<Rightarrow> int option) \<Rightarrow> jsval \<Rightarrow> jsval \<Rightarrow> jsval" where
  "reconciled parse existing i =
     withIsDeleted (if geq (timeOf parse i) (timeOf parse existing) then i else existing)
       (jsOr (readProp i ''isDeleted'') (readProp existing ''isDeleted''))"

text \<open>The two \<^verbatim>\<open>forEach\<close> bodies on entities, where nothing throws and every key is a
  primitive.\<close>

definition putEntity :: "jsval \<Rightarrow> jsmap \<Rightarrow> jsmap" where
  "putEntity i m = AList.update (idOf i) i m"

definition mergeInto :: "(jsval \<Rightarrow> int option) \<Rightarrow> jsval \<Rightarrow> jsmap \<Rightarrow> jsmap" where
  "mergeInto parse i m =
     AList.update (idOf i)
       (case map_of m (idOf i) of None \<Rightarrow> i | Some e \<Rightarrow> reconciled parse e i) m"


text \<open>The invariant of the \<^verbatim>\<open>Map\<close>: its keys are distinct, and every value is an entity
  stored under its own id.\<close>

definition wfMap :: "jsmap \<Rightarrow> bool" where
  "wfMap m = (distinct (map fst m) \<and> list_all (\<lambda>(k, v). entity v \<and> idOf v = k) m)"

text \<open>A soft-delete flag as the data model has it: a boolean, or absent.\<close>

fun isFlag :: "jsval \<Rightarrow> bool" where
  "isFlag (Bool b) = True"
| "isFlag Undefined = True"
| "isFlag v = False"

text \<open>
  The uniqueness key of a study-log entry, and a well-formed entry: not \<^verbatim>\<open>null\<close>, with
  primitive values (or none) for \<^verbatim>\<open>cardId\<close>, \<^verbatim>\<open>date\<close> and \<^verbatim>\<open>rating\<close>.
\<close>

definition logKey :: "jsval \<Rightarrow> jsval \<times> jsval \<times> jsval" where
  "logKey v = (readProp v ''cardId'', readProp v ''date'', readProp v ''rating'')"

definition logEntry :: "jsval \<Rightarrow> bool" where
  "logEntry v = (\<not> nullish v \<and> \<not> isObject (readProp v ''cardId'')
     \<and> \<not> isObject (readProp v ''date'') \<and> \<not> isObject (readProp v ''rating''))"

text \<open>
  The log merger in the specification's words: go through the entries in order and
  remove any entry whose key has already been seen, keeping the first occurrence.
\<close>

fun firstOccurrences :: "(jsval \<times> jsval \<times> jsval) list \<Rightarrow> jsval list \<Rightarrow> jsval list" where
  "firstOccurrences seen [] = []"
| "firstOccurrences seen (v # rest) =
     (if logKey v \<in> set seen then firstOccurrences seen rest
      else v # firstOccurrences (logKey v # seen) rest)"









text \<open>The store a process works on: the key-value service when it is configured,
  \<^verbatim>\<open>memoryStore\<close> otherwise.\<close>

definition storeInUse :: "env \<Rightarrow> stores \<Rightarrow> string \<Rightarrow> user option" where
  "storeInUse env st = (if kvConfigured env then kvStore st else memoryStore st)"





text \<open>For the examples, \<^verbatim>\<open>toLowerCase\<close> on strings of ASCII characters: the letters A to Z
  are lowercased, every other character is left as it is.\<close>

definition lowerChar :: "char \<Rightarrow> char" where
  "lowerChar c =
     (case map_of (zip ''ABCDEFGHIJKLMNOPQRSTUVWXYZ'' ''abcdefghijklmnopqrstuvwxyz'') c of
        None \<Rightarrow> c
      | Some l \<Rightarrow> l)"

definition asciiLowerCase :: "string \<Rightarrow> string" where
  "asciiLowerCase s = map lowerChar s"

text \<open>
  For the examples, the part of \<^verbatim>\<open>Date.parse\<close> they need: one ISO date with its time
  value; the other strings of the examples are no dates.
\<close>

definition exampleParse :: "jsval \<Rightarrow> int option" where
  "exampleParse v =
     (if v = Str ''2024-01-01T00:00:00.000Z'' then Some 1704067200000 else None)"

text \<open>The entities, profiles and requests of the examples.\<close>

definition deletedOnServer :: jsval where
  "deletedOnServer = Obj [(''id'', Str ''c1''), (''updatedAt'', Num 10), (''isDeleted'', Bool True)]"

definition editedOnClient :: jsval where
  "editedOnClient = Obj [(''id'', Str ''c1''), (''updatedAt'', Num 20), (''front'', Str ''hello'')]"

definition tieServer :: jsval where
  "tieServer = Obj [(''id'', Num 1), (''updatedAt'', Str ''2024-01-01T00:00:00.000Z'')]"

definition tieClient :: jsval where
  "tieClient = Obj [(''id'', Num 1), (''updatedAt'', Str ''2024-01-01T00:00:00.000Z''),
     (''field'', Str ''X'')]"

definition garbageServer :: jsval where
  "garbageServer = Obj [(''id'', Num 1), (''updatedAt'', Str ''garbage''),
     (''title'', Str ''server'')]"

definition datedClient :: jsval where
  "datedClient = Obj [(''id'', Num 1), (''updatedAt'', Str ''2024-01-01T00:00:00.000Z''),
     (''title'', Str ''client'')]"

definition plainServer :: jsval where
  "plainServer = Obj [(''id'', Num 2), (''title'', Str ''server'')]"

definition garbageClient :: jsval where
  "garbageClient = Obj [(''id'', Num 2), (''updatedAt'', Str ''garbage''),
     (''title'', Str ''client'')]"

definition darkProfile :: jsval where
  "darkProfile = Obj [(''theme'', Str ''dark'')]"

definition laterDarkProfile :: jsval where
  "laterDarkProfile = Obj [(''theme'', Str ''dark''), (''updatedAt'', Num 2)]"

definition lightProfile :: jsval where
  "lightProfile = Obj [(''theme'', Str ''light''), (''updatedAt'', Num 1)]"

definition bundleWith :: "jsval \<Rightarrow> jsval" where
  "bundleWith profile = Obj [(''decks'', Arr []), (''cards'', Arr []), (''studyHistory'', Arr []),
     (''userProfile'', profile), (''userAchievements'', Arr [])]"

definition unparsableServer :: jsval where
  "unparsableServer = Obj [(''id'', Num 1), (''updatedAt'', Str ''garbage'')]"

definition unparsableClient :: jsval where
  "unparsableClient = Obj [(''id'', Num 1), (''updatedAt'', Str ''garbage''),
     (''field'', Str ''X'')]"

definition shadowedClient :: jsval where
  "shadowedClient = Obj [(''id'', Num 2), (''updatedAt'', Obj [(''toString'', Num 0)]),
     (''title'', Str ''client'')]"

definition bobUser :: user where
  "bobUser = \<lparr>username = Str ''Bob'', password = Str ''pw'', data = emptyData\<rparr>"

definition bobStore :: stores where
  "bobStore = \<lparr>memoryStore = [''user:bob'' \<mapsto> bobUser], kvStore = Map.empty\<rparr>"

definition bobService :: stores where
  "bobService = \<lparr>memoryStore = Map.empty, kvStore = [''user:bob'' \<mapsto> bobUser]\<rparr>"

definition localEnv :: env where
  "localEnv = \<lparr>kvConfigured = False, readOk = True, writeOk = True\<rparr>"

definition failedRead :: env where
  "failedRead = \<lparr>kvConfigured = True, readOk = False, writeOk = True\<rparr>"

definition registerBOB :: "(string \<times> jsval) list" where
  "registerBOB = [(''action'', Str ''auth-register''), (''username'', Str ''BOB''),
     (''password'', Str ''other'')]"











section \<open>Evaluation and basic facts\<close>

declare decimal.simps [simp del]

lemmas evals = andThen_def mergeLists_def mergeEntity_def getProp_def field_def jsOr_def
  sameValueZero_def withIsDeleted_def timeClip_def exampleParse_def Let_def idOf_def timeOf_def
  mergeStudyHistory_def sameEntry_def strictEquals_def logKey_def logEntry_def

lemmas example_defs = deletedOnServer_def editedOnClient_def tieServer_def tieClient_def
  garbageServer_def datedClient_def plainServer_def garbageClient_def darkProfile_def
  laterDarkProfile_def lightProfile_def bundleWith_def bobStore_def bobUser_def bobService_def
  localEnv_def failedRead_def registerBOB_def unparsableServer_def unparsableClient_def
  shadowedClient_def

lemmas handler_evals = handleSyncMerge_def handleRegister_def proxy_def caught_def getUser_def
  setUser_def assignData_def stringified_def storeInUse_def asciiLowerCase_def lowerChar_def
  errorBody_def messageBody_def upstreamActions_def emptyData_def mergeData_def


section \<open>\<^verbatim>\<open>mergeLists\<close> on entities\<close>

lemma andThen_Inr [simp]: "andThen (Inr x) f = f x"
  by (simp add: andThen_def)

lemma andThen_Inl [simp]: "andThen (Inl e) f = Inl e"
  by (simp add: andThen_def)

lemma getProp_Obj [simp]: "getProp (Obj fs) name = Inr (field fs name)"
  by (simp add: getProp_def)

lemma entity_cases:
  "entity v \<Longrightarrow>
   \<exists>fs. v = Obj fs \<and> \<not> isObject (field fs ''id'') \<and> \<not> isObject (field fs ''updatedAt'')"
  by (cases v) simp_all

lemma getTime_primitive: "\<not> isObject x \<Longrightarrow> \<exists>t. getTime parse x = Inr t"
  by (cases x) simp_all

lemma getTime_entity:
  assumes "entity v"
  shows "getTime parse (jsOr (readProp v ''updatedAt'') (Num 0)) = Inr (timeOf parse v)"
proof -
  from assms have "\<not> isObject (jsOr (readProp v ''updatedAt'') (Num 0))"
    by (cases v) (simp_all add: jsOr_def)
  then obtain t where "getTime parse (jsOr (readProp v ''updatedAt'') (Num 0)) = Inr t"
    using getTime_primitive by blast
  then show ?thesis by (simp add: timeOf_def)
qed

lemma entity_id_prim: "entity v \<Longrightarrow> \<not> isObject (idOf v)"
  by (cases v) (simp_all add: idOf_def)

lemma sameValueZero_prim: "\<not> isObject k \<Longrightarrow> sameValueZero k' k = (k' = k)"
  by (auto simp: sameValueZero_def)

lemma mapGet_prim:
  "\<not> isObject k \<Longrightarrow> mapGet m k = (case map_of m k of None \<Rightarrow> Undefined | Some v \<Rightarrow> v)"
  by (induction m) (auto simp: sameValueZero_prim)

lemma mapSet_prim: "\<not> isObject k \<Longrightarrow> mapSet m k v = AList.update k v m"
  by (induction m) (auto simp: sameValueZero_prim)

lemma seed_entities:
  "list_all entity xs \<Longrightarrow> seed m xs = Inr (fold putEntity xs m)"
proof (induction xs arbitrary: m)
  case Nil
  then show ?case by simp
next
  case (Cons x xs)
  from Cons.prems obtain fs where x: "x = Obj fs" "\<not> isObject (field fs ''id'')"
    using entity_cases by auto
  from Cons.prems have "list_all entity xs" by simp
  from Cons.IH [OF this] show ?case
    using x by (simp add: putEntity_def idOf_def mapSet_prim)
qed

lemma field_withIsDeleted:
  "name \<noteq> ''isDeleted'' \<Longrightarrow> readProp (withIsDeleted (Obj fs) d) name = field fs name"
  by (simp add: withIsDeleted_def field_def update_conv')

lemma isDeleted_withIsDeleted: "readProp (withIsDeleted w d) ''isDeleted'' = d"
  by (simp add: withIsDeleted_def field_def update_conv')

lemma entity_reconciled:
  "entity e \<Longrightarrow> entity i \<Longrightarrow> idOf e = idOf i \<Longrightarrow>
   entity (reconciled parse e i) \<and> idOf (reconciled parse e i) = idOf i"
  by (auto simp: reconciled_def withIsDeleted_def idOf_def field_def update_conv'
      dest!: entity_cases)

lemma mergeEntity_entity:
  assumes "entity i" and "list_all (\<lambda>(k, v). entity v) m"
  shows "mergeEntity parse m i = Inr (mergeInto parse i m)"
proof -
  from assms(1) obtain fs where i: "i = Obj fs" "\<not> isObject (field fs ''id'')"
    using entity_cases by auto
  show ?thesis
  proof (cases "map_of m (field fs ''id'')")
    case None
    then show ?thesis
      using i by (simp add: mergeEntity_def mergeInto_def idOf_def mapGet_prim mapSet_prim)
  next
    case (Some e)
    then have "(field fs ''id'', e) \<in> set m" by (rule map_of_SomeD)
    with assms(2) have "entity e" by (auto simp: list_all_iff)
    then obtain es where e: "e = Obj es" using entity_cases by auto
    have ti: "getTime parse (jsOr (field fs ''updatedAt'') (Num 0)) = Inr (timeOf parse i)"
      using getTime_entity [OF assms(1), of parse] by (simp add: i)
    have te: "getTime parse (jsOr (field es ''updatedAt'') (Num 0)) = Inr (timeOf parse e)"
      using getTime_entity [OF \<open>entity e\<close>, of parse] by (simp add: e)
    have "mergeEntity parse m (Obj fs)
        = Inr (mapSet m (field fs ''id'') (reconciled parse (Obj es) (Obj fs)))"
      using i(2) Some ti te
      by (simp add: mergeEntity_def mapGet_prim e i(1) reconciled_def Let_def)
    then show ?thesis
      using i Some e by (simp add: mergeInto_def idOf_def mapSet_prim)
  qed
qed

lemma set_update_subset: "set (AList.update k v m) \<subseteq> insert (k, v) (set m)"
  by (induction m) auto

lemma wfMap_update:
  assumes "wfMap m" and "entity v" and "idOf v = k"
  shows "wfMap (AList.update k v m)"
proof -
  have "distinct (map fst (AList.update k v m))"
    using assms(1) by (simp add: wfMap_def distinct_update)
  moreover have "list_all (\<lambda>(k, v). entity v \<and> idOf v = k) (AList.update k v m)"
    using assms set_update_subset [of k v m] by (auto simp: wfMap_def list_all_iff)
  ultimately show ?thesis by (simp add: wfMap_def)
qed

lemma wfMap_values: "wfMap m \<Longrightarrow> list_all (\<lambda>(k, v). entity v) m"
  by (auto simp: wfMap_def list_all_iff)

lemma wfMap_lookup: "wfMap m \<Longrightarrow> map_of m k = Some e \<Longrightarrow> entity e \<and> idOf e = k"
  by (auto simp: wfMap_def list_all_iff dest!: map_of_SomeD)

lemma wfMap_putEntity: "wfMap m \<Longrightarrow> entity i \<Longrightarrow> wfMap (putEntity i m)"
  by (simp add: putEntity_def wfMap_update)

lemma wfMap_mergeInto: "wfMap m \<Longrightarrow> entity i \<Longrightarrow> wfMap (mergeInto parse i m)"
  unfolding mergeInto_def
  by (rule wfMap_update) (auto split: option.splits dest: wfMap_lookup simp: entity_reconciled)

lemma wfMap_seeded: "list_all entity xs \<Longrightarrow> wfMap m \<Longrightarrow> wfMap (fold putEntity xs m)"
  by (induction xs arbitrary: m) (simp_all add: wfMap_putEntity)

lemma wfMap_merged:
  "list_all entity cs \<Longrightarrow> wfMap m \<Longrightarrow> wfMap (fold (mergeInto parse) cs m)"
  by (induction cs arbitrary: m) (simp_all add: wfMap_mergeInto)

lemma mergeAll_entities:
  "list_all entity cs \<Longrightarrow> wfMap m \<Longrightarrow> mergeAll parse m cs = Inr (fold (mergeInto parse) cs m)"
proof (induction cs arbitrary: m)
  case Nil
  then show ?case by simp
next
  case (Cons c cs)
  then have c: "entity c" and cs: "list_all entity cs" by simp_all
  have "mergeEntity parse m c = Inr (mergeInto parse c m)"
    using c Cons.prems(2) by (simp add: mergeEntity_entity wfMap_values)
  moreover have "wfMap (mergeInto parse c m)"
    using c Cons.prems(2) by (rule wfMap_mergeInto [rotated])
  ultimately show ?case
    using Cons.IH [OF cs] by simp
qed

lemma keys_seeded: "fst ` set (fold putEntity xs m) = fst ` set m \<union> idOf ` set xs"
  by (induction xs arbitrary: m) (auto simp: putEntity_def dom_update)

lemma keys_merged: "fst ` set (fold (mergeInto parse) cs m) = fst ` set m \<union> idOf ` set cs"
  by (induction cs arbitrary: m) (auto simp: mergeInto_def dom_update)

lemma wfMap_Nil: "wfMap []"
  by (simp add: wfMap_def)

lemma wfMap_ids: "wfMap m \<Longrightarrow> map idOf (map snd m) = map fst m"
  by (induction m) (auto simp: wfMap_def)

lemma mergeLists_entities:
  assumes "elements (jsOr cloudList (Arr [])) = Inr ss"
    and "elements (jsOr clientList (Arr [])) = Inr cs"
    and "list_all entity ss" and "list_all entity cs"
  shows "mergeLists parse cloudList clientList
    = Inr (Arr (map snd (fold (mergeInto parse) cs (fold putEntity ss []))))"
proof -
  have "wfMap (fold putEntity ss [])"
    using assms(3) wfMap_Nil by (rule wfMap_seeded)
  then show ?thesis
    using assms by (simp add: mergeLists_def seed_entities mergeAll_entities)
qed

lemma elements_Arr: "elements (jsOr (Arr xs) (Arr [])) = Inr xs"
  by (simp add: jsOr_def)

lemma find_distinct:
  "distinct (map f xs) \<Longrightarrow> x \<in> set xs \<Longrightarrow> find (\<lambda>y. f y = f x) xs = Some x"
  by (induction xs) (auto simp: rev_image_eqI)

lemma find_absent: "k \<notin> f ` set xs \<Longrightarrow> find (\<lambda>y. f y = k) xs = None"
  by (induction xs) auto

lemma map_of_putEntity:
  "map_of (putEntity s m) k = (if k = idOf s then Some s else map_of m k)"
  by (simp add: putEntity_def update_conv')

lemma map_of_mergeInto:
  "map_of (mergeInto parse c m) k
     = (if k = idOf c
        then Some (case map_of m k of None \<Rightarrow> c | Some e \<Rightarrow> reconciled parse e c)
        else map_of m k)"
  by (simp add: mergeInto_def update_conv')

lemma map_of_seeded:
  "distinct (map idOf ss) \<Longrightarrow>
   map_of (fold putEntity ss m) k
     = (case find (\<lambda>s. idOf s = k) ss of None \<Rightarrow> map_of m k | Some s \<Rightarrow> Some s)"
proof (induction ss arbitrary: m)
  case Nil
  then show ?case by simp
next
  case (Cons s ss)
  then have d: "distinct (map idOf ss)" and n: "idOf s \<notin> idOf ` set ss" by simp_all
  show ?case
    using n by (auto simp add: Cons.IH [OF d] map_of_putEntity find_absent split: option.splits)
qed

lemma map_of_merged:
  "distinct (map idOf cs) \<Longrightarrow>
   map_of (fold (mergeInto parse) cs m) k
     = (case find (\<lambda>c. idOf c = k) cs of
          None \<Rightarrow> map_of m k
        | Some c \<Rightarrow> Some (case map_of m k of None \<Rightarrow> c | Some e \<Rightarrow> reconciled parse e c))"
proof (induction cs arbitrary: m)
  case Nil
  then show ?case by simp
next
  case (Cons c cs)
  then have d: "distinct (map idOf cs)" and n: "idOf c \<notin> idOf ` set cs" by simp_all
  show ?case
    using n by (auto simp add: Cons.IH [OF d] map_of_mergeInto find_absent split: option.splits)
qed

lemma reconciled_in_output:
  assumes "list_all entity ss" and "list_all entity cs"
    and "distinct (map idOf ss)" and "distinct (map idOf cs)"
    and "s \<in> set ss" and "c \<in> set cs" and "idOf s = idOf c"
  shows "\<exists>out. mergeLists parse (Arr ss) (Arr cs) = Inr (Arr out)
    \<and> reconciled parse s c \<in> set out
    \<and> (\<forall>r\<in>set out. idOf r = idOf c \<longrightarrow> r = reconciled parse s c)"
proof -
  let ?m = "fold (mergeInto parse) cs (fold putEntity ss [])"
  have wf: "wfMap ?m"
    using assms(1,2) by (simp add: wfMap_merged wfMap_seeded wfMap_Nil)
  have out: "mergeLists parse (Arr ss) (Arr cs) = Inr (Arr (map snd ?m))"
    using assms(1,2) by (simp add: mergeLists_entities elements_Arr)
  have "find (\<lambda>x. idOf x = idOf c) ss = Some s"
    using find_distinct [OF assms(3) assms(5)] assms(7) by simp
  moreover have "find (\<lambda>x. idOf x = idOf c) cs = Some c"
    using find_distinct [OF assms(4) assms(6)] by simp
  ultimately have look: "map_of ?m (idOf c) = Some (reconciled parse s c)"
    using assms(3,4) by (simp add: map_of_merged map_of_seeded)
  then have "(idOf c, reconciled parse s c) \<in> set ?m" by (rule map_of_SomeD)
  then have mem: "reconciled parse s c \<in> set (map snd ?m)" by force
  have "r = reconciled parse s c" if "r \<in> set (map snd ?m)" and "idOf r = idOf c" for r
  proof -
    from that(1) obtain k where kr: "(k, r) \<in> set ?m" by auto
    with wf have "idOf r = k" by (auto simp: wfMap_def list_all_iff)
    with kr that(2) have "(idOf c, r) \<in> set ?m" by simp
    moreover from wf have "distinct (map fst ?m)" by (simp add: wfMap_def)
    ultimately have "map_of ?m (idOf c) = Some r" by simp
    with look show ?thesis by simp
  qed
  with out mem show ?thesis by blast
qed


lemma truthy_jsOr: "truthy (jsOr a b) = (truthy a \<or> truthy b)"
  by (simp add: jsOr_def)

lemma jsOr_flag:
  "isFlag a \<Longrightarrow> a = Bool True \<or> b = Bool True \<Longrightarrow> jsOr a b = Bool True"
  by (cases a) (auto simp: jsOr_def)




lemma timeOf_missing: "\<not> truthy (readProp e ''updatedAt'') \<Longrightarrow> timeOf parse e = Some 0"
  by (simp add: timeOf_def jsOr_def timeClip_def)


section \<open>Merging the same client list again\<close>












section \<open>The study history on well-formed entries\<close>

lemma strictEquals_prim: "\<not> isObject a \<Longrightarrow> strictEquals same a b = (a = b)"
  by (simp add: strictEquals_def)

lemma sameEntry_logEntry:
  "logEntry t \<Longrightarrow> logEntry v \<Longrightarrow> sameEntry same t v = Inr (logKey t = logKey v)"
  by (simp add: sameEntry_def logEntry_def getProp_def strictEquals_prim logKey_def)

lemma findIndex_first:
  assumes "list_all logEntry pre" and "logEntry v"
  shows "\<exists>r. findIndex (\<lambda>j t. sameEntry (j = i) t v) j (pre @ v # rest) = Inr r
    \<and> ((r = int (j + length pre)) = (logKey v \<notin> logKey ` set pre))"
  using assms(1)
proof (induction pre arbitrary: j)
  case Nil
  then show ?case using assms(2) by (simp add: sameEntry_logEntry)
next
  case (Cons t pre)
  then have t: "logEntry t" and pre: "list_all logEntry pre" by simp_all
  show ?case
  proof (cases "logKey t = logKey v")
    case True
    then show ?thesis using t assms(2) by (simp add: sameEntry_logEntry)
  next
    case False
    from Cons.IH [OF pre, of "Suc j"] obtain r
      where r: "findIndex (\<lambda>j t. sameEntry (j = i) t v) (Suc j) (pre @ v # rest) = Inr r"
        and first: "(r = int (Suc j + length pre)) = (logKey v \<notin> logKey ` set pre)"
      by blast
    have "findIndex (\<lambda>j t. sameEntry (j = i) t v) j ((t # pre) @ v # rest) = Inr r"
      using False t assms(2) r by (simp add: sameEntry_logEntry)
    moreover have "(r = int (j + length (t # pre))) = (logKey v \<notin> logKey ` set (t # pre))"
      using False first by simp
    ultimately show ?thesis by blast
  qed
qed

lemma firstOccurrences_seen:
  "set seen = set seen' \<Longrightarrow> firstOccurrences seen vs = firstOccurrences seen' vs"
proof (induction vs arbitrary: seen seen')
  case Nil
  show ?case by simp
next
  case (Cons v vs)
  have mem: "(logKey v \<in> set seen) = (logKey v \<in> set seen')"
    using Cons.prems by simp
  have "set (logKey v # seen) = set (logKey v # seen')"
    using Cons.prems by simp
  then have "firstOccurrences (logKey v # seen) vs = firstOccurrences (logKey v # seen') vs"
    by (rule Cons.IH)
  moreover have "firstOccurrences seen vs = firstOccurrences seen' vs"
    using Cons.prems by (rule Cons.IH)
  ultimately show ?case
    using mem by simp
qed

lemma uniqueLogs_firstOccurrences:
  assumes "list_all logEntry pre" and "list_all logEntry vs"
    and "set seen = logKey ` set pre"
  shows "uniqueLogs (pre @ vs) (length pre) vs = Inr (firstOccurrences seen vs)"
  using assms
proof (induction vs arbitrary: pre seen)
  case Nil
  then show ?case by simp
next
  case (Cons v vs)
  then have v: "logEntry v" and vs: "list_all logEntry vs" by simp_all
  obtain r where r: "findIndex (\<lambda>j t. sameEntry (j = length pre) t v) 0 (pre @ v # vs) = Inr r"
    and first: "(r = int (length pre)) = (logKey v \<notin> logKey ` set pre)"
    using findIndex_first [OF Cons.prems(1) v, of "length pre" 0 vs] by auto
  have pre': "list_all logEntry (pre @ [v])"
    using Cons.prems(1) v by simp
  have rest: "uniqueLogs (pre @ v # vs) (Suc (length pre)) vs
      = Inr (firstOccurrences (logKey v # seen) vs)"
    using Cons.IH [OF pre' vs, of "logKey v # seen"] Cons.prems(3) by simp
  show ?case
  proof (cases "logKey v \<in> set seen")
    case True
    then have "set (logKey v # seen) = set seen" by auto
    then have "firstOccurrences (logKey v # seen) vs = firstOccurrences seen vs"
      by (rule firstOccurrences_seen)
    with True r first rest Cons.prems(3) show ?thesis by simp
  next
    case False
    with r first rest Cons.prems(3) show ?thesis by simp
  qed
qed

lemma mergeStudyHistory_logs:
  assumes "iterate (jsOr cloudHistory (Arr [])) = Inr cloud"
    and "iterate (jsOr clientHistory (Arr [])) = Inr client"
    and "list_all logEntry cloud" and "list_all logEntry client"
  shows "mergeStudyHistory cloudHistory clientHistory
    = Inr (Arr (firstOccurrences [] (cloud @ client)))"
proof -
  have "uniqueLogs ([] @ (cloud @ client)) (length ([] :: jsval list)) (cloud @ client)
      = Inr (firstOccurrences [] (cloud @ client))"
    using assms(3,4) by (intro uniqueLogs_firstOccurrences) simp_all
  then show ?thesis
    using assms(1,2) by (simp add: mergeStudyHistory_def)
qed








section \<open>The merged bundle and the handlers\<close>

lemma andThen_InrE:
  assumes "andThen r f = Inr y"
  obtains x where "r = Inr x" and "f x = Inr y"
  using assms by (cases r) (simp_all add: andThen_def)

lemma getProp_InrD: "getProp v name = Inr x \<Longrightarrow> x = readProp v name"
  by (simp add: getProp_def split: if_splits)

lemma truthy_not_nullish: "truthy v \<Longrightarrow> \<not> nullish v"
  by (cases v) simp_all

lemma falsy_cases:
  "\<not> truthy v \<Longrightarrow> v \<noteq> Bool False \<Longrightarrow> v \<noteq> Num 0 \<Longrightarrow> v \<noteq> Str [] \<Longrightarrow> nullish v"
  by (cases v) auto

lemma andThen_eq_Inr: "(andThen r f = Inr y) = (\<exists>x. r = Inr x \<and> f x = Inr y)"
  by (cases r) (simp_all add: andThen_def)

lemma mergeData_userProfile:
  assumes "mergeData parse cloudData clientData = Inr merged"
  shows "readProp merged ''userProfile''
    = (if truthy (readProp clientData ''userProfile'') then readProp clientData ''userProfile''
       else readProp cloudData ''userProfile'')"
  using assms unfolding mergeData_def andThen_eq_Inr
  by (auto simp: field_def dest!: getProp_InrD split: if_splits)



lemma field_payload:
  "name \<noteq> ''action'' \<Longrightarrow> field (AList.delete ''action'' reqBody) name = field reqBody name"
  by (simp add: field_def delete_conv')


lemma mergeData_no_client:
  "truthy cloudData \<Longrightarrow> mergeData parse cloudData Undefined = Inl TypeError"
  by (simp add: mergeData_def getProp_def truthy_not_nullish)

lemma getUser_inUse:
  "kvConfigured env \<longrightarrow> readOk env \<Longrightarrow>
   getUser env toLowerCase st (Str name) = Inr (storeInUse env st (''user:'' @ toLowerCase name))"
  by (simp add: getUser_def storeInUse_def)












section \<open>Merging the same bundle again\<close>



lemma toJSON_truthy: "truthy (toJSON v) = truthy v"
  by (cases v) auto


























































section \<open>The claims\<close>

text \<open>
  C1. For lists of reconcilable entities, the list \<^verbatim>\<open>mergeLists\<close> returns has, for every
  id present in either input, exactly one entity with that id, and no entity with any
  other id. The \<^verbatim>\<open>isDeleted\<close> flag plays no part: no entity is dropped for it.
\<close>

theorem mergeLists_ids_once:
  assumes "list_all entity ss" and "list_all entity cs"
  shows "\<exists>out. mergeLists parse (Arr ss) (Arr cs) = Inr (Arr out)
    \<and> distinct (map idOf out)
    \<and> set (map idOf out) = idOf ` set ss \<union> idOf ` set cs"
proof -
  let ?m = "fold (mergeInto parse) cs (fold putEntity ss [])"
  have wf: "wfMap ?m"
    using assms by (simp add: wfMap_merged wfMap_seeded wfMap_Nil)
  have "mergeLists parse (Arr ss) (Arr cs) = Inr (Arr (map snd ?m))"
    using assms by (simp add: mergeLists_entities elements_Arr)
  moreover have "distinct (map idOf (map snd ?m))"
    using wf by (simp only: wfMap_ids) (simp add: wfMap_def)
  moreover have "set (map idOf (map snd ?m)) = idOf ` set ss \<union> idOf ` set cs"
    using wf by (simp only: wfMap_ids) (simp add: keys_merged keys_seeded)
  ultimately show ?thesis by blast
qed

theorem mergeLists_ids_once_witness:
  "list_all entity [Obj [(''id'', Str ''d1''), (''isDeleted'', Bool True)], Obj [(''id'', Str ''d2'')]]
   \<and> list_all entity [Obj [(''id'', Str ''d2''), (''updatedAt'', Num 5)],
        Obj [(''id'', Str ''d3''), (''isDeleted'', Bool True)]]
   \<and> (\<exists>out. mergeLists exampleParse
         (Arr [Obj [(''id'', Str ''d1''), (''isDeleted'', Bool True)], Obj [(''id'', Str ''d2'')]])
         (Arr [Obj [(''id'', Str ''d2''), (''updatedAt'', Num 5)],
           Obj [(''id'', Str ''d3''), (''isDeleted'', Bool True)]]) = Inr (Arr out)
       \<and> distinct (map idOf out)
       \<and> set (map idOf out) = {Str ''d1'', Str ''d2'', Str ''d3''})"
  using mergeLists_ids_once [of
      "[Obj [(''id'', Str ''d1''), (''isDeleted'', Bool True)], Obj [(''id'', Str ''d2'')]]"
      "[Obj [(''id'', Str ''d2''), (''updatedAt'', Num 5)],
        Obj [(''id'', Str ''d3''), (''isDeleted'', Bool True)]]" exampleParse]
  by (simp add: field_def idOf_def insert_commute)

text \<open>
  C2. For an id present in both lists (each id-unique), the reconciled entity's
  \<^verbatim>\<open>isDeleted\<close> is \<^verbatim>\<open>client.isDeleted || server.isDeleted\<close>: it is truthy exactly when one
  of the two flags is (an absent flag counting as false), and it is \<^verbatim>\<open>true\<close> as soon as
  one of the two flags is \<^verbatim>\<open>true\<close> (the client's being a boolean or absent). A delete is
  not undone by a non-deleting update of the same id.
\<close>

theorem isDeleted_is_or:
  assumes "list_all entity ss" and "list_all entity cs"
    and "distinct (map idOf ss)" and "distinct (map idOf cs)"
    and "s \<in> set ss" and "c \<in> set cs" and "idOf s = idOf c"
  shows "\<exists>out. mergeLists parse (Arr ss) (Arr cs) = Inr (Arr out)
    \<and> (\<exists>r\<in>set out. idOf r = idOf c)
    \<and> (\<forall>r\<in>set out. idOf r = idOf c \<longrightarrow>
          readProp r ''isDeleted'' = jsOr (readProp c ''isDeleted'') (readProp s ''isDeleted'')
        \<and> truthy (readProp r ''isDeleted'')
            = (truthy (readProp s ''isDeleted'') \<or> truthy (readProp c ''isDeleted''))
        \<and> (isFlag (readProp c ''isDeleted'')
            \<and> (readProp s ''isDeleted'' = Bool True \<or> readProp c ''isDeleted'' = Bool True)
            \<longrightarrow> readProp r ''isDeleted'' = Bool True))"
proof -
  from reconciled_in_output [OF assms, of parse] obtain out
    where out: "mergeLists parse (Arr ss) (Arr cs) = Inr (Arr out)"
      and mem: "reconciled parse s c \<in> set out"
      and only: "\<forall>r\<in>set out. idOf r = idOf c \<longrightarrow> r = reconciled parse s c"
    by blast
  have s: "entity s" and c: "entity c"
    using assms(1,2,5,6) by (auto simp: list_all_iff)
  have del: "readProp (reconciled parse s c) ''isDeleted''
      = jsOr (readProp c ''isDeleted'') (readProp s ''isDeleted'')"
    by (simp add: reconciled_def isDeleted_withIsDeleted)
  have "idOf (reconciled parse s c) = idOf c"
    using entity_reconciled [OF s c assms(7)] by simp
  with mem have ex: "\<exists>r\<in>set out. idOf r = idOf c" by blast
  have "readProp r ''isDeleted'' = jsOr (readProp c ''isDeleted'') (readProp s ''isDeleted'')
      \<and> truthy (readProp r ''isDeleted'')
          = (truthy (readProp s ''isDeleted'') \<or> truthy (readProp c ''isDeleted''))
      \<and> (isFlag (readProp c ''isDeleted'')
          \<and> (readProp s ''isDeleted'' = Bool True \<or> readProp c ''isDeleted'' = Bool True)
          \<longrightarrow> readProp r ''isDeleted'' = Bool True)"
    if "r \<in> set out" and "idOf r = idOf c" for r
  proof -
    from that only have "r = reconciled parse s c" by blast
    with del show ?thesis
      by (auto simp: truthy_jsOr jsOr_flag)
  qed
  with out ex show ?thesis by blast
qed

theorem isDeleted_is_or_witness:
  "list_all entity [deletedOnServer]
   \<and> list_all entity [editedOnClient]
   \<and> distinct (map idOf [deletedOnServer])
   \<and> distinct (map idOf [editedOnClient])
   \<and> deletedOnServer \<in> set [deletedOnServer]
   \<and> editedOnClient \<in> set [editedOnClient]
   \<and> idOf deletedOnServer = idOf editedOnClient
   \<and> (\<exists>out. mergeLists exampleParse (Arr [deletedOnServer]) (Arr [editedOnClient]) = Inr (Arr out)
        \<and> (\<exists>r\<in>set out. idOf r = idOf editedOnClient)
        \<and> (\<forall>r\<in>set out. idOf r = idOf editedOnClient \<longrightarrow>
              readProp r ''isDeleted'' = jsOr (readProp editedOnClient ''isDeleted'') (readProp deletedOnServer ''isDeleted'')
            \<and> truthy (readProp r ''isDeleted'')
                = (truthy (readProp deletedOnServer ''isDeleted'') \<or> truthy (readProp editedOnClient ''isDeleted''))
            \<and> (isFlag (readProp editedOnClient ''isDeleted'')
                \<and> (readProp deletedOnServer ''isDeleted'' = Bool True \<or> readProp editedOnClient ''isDeleted'' = Bool True)
                \<longrightarrow> readProp r ''isDeleted'' = Bool True)))
   \<and> mergeLists exampleParse (Arr [deletedOnServer]) (Arr [editedOnClient])
      = Inr (Arr [Obj [(''id'', Str ''c1''), (''updatedAt'', Num 20), (''front'', Str ''hello''),
          (''isDeleted'', Bool True)]])"
proof (intro conjI)
  show h1: "list_all entity [deletedOnServer]"
    by (simp add: example_defs field_def idOf_def)
  show h2: "list_all entity [editedOnClient]"
    by (simp add: example_defs field_def idOf_def)
  show h3: "distinct (map idOf [deletedOnServer])"
    by (simp add: example_defs field_def idOf_def)
  show h4: "distinct (map idOf [editedOnClient])"
    by (simp add: example_defs field_def idOf_def)
  show h5: "deletedOnServer \<in> set [deletedOnServer]"
    by (simp add: example_defs field_def idOf_def)
  show h6: "editedOnClient \<in> set [editedOnClient]"
    by (simp add: example_defs field_def idOf_def)
  show h7: "idOf deletedOnServer = idOf editedOnClient"
    by (simp add: example_defs field_def idOf_def)
  show "\<exists>out. mergeLists exampleParse (Arr [deletedOnServer]) (Arr [editedOnClient]) = Inr (Arr out)
        \<and> (\<exists>r\<in>set out. idOf r = idOf editedOnClient)
        \<and> (\<forall>r\<in>set out. idOf r = idOf editedOnClient \<longrightarrow>
              readProp r ''isDeleted'' = jsOr (readProp editedOnClient ''isDeleted'') (readProp deletedOnServer ''isDeleted'')
            \<and> truthy (readProp r ''isDeleted'')
                = (truthy (readProp deletedOnServer ''isDeleted'') \<or> truthy (readProp editedOnClient ''isDeleted''))
            \<and> (isFlag (readProp editedOnClient ''isDeleted'')
                \<and> (readProp deletedOnServer ''isDeleted'' = Bool True \<or> readProp editedOnClient ''isDeleted'' = Bool True)
                \<longrightarrow> readProp r ''isDeleted'' = Bool True))"
    by (rule isDeleted_is_or [OF h1 h2 h3 h4 h5 h6 h7])
  show "mergeLists exampleParse (Arr [deletedOnServer]) (Arr [editedOnClient])
      = Inr (Arr [Obj [(''id'', Str ''c1''), (''updatedAt'', Num 20), (''front'', Str ''hello''),
          (''isDeleted'', Bool True)]])"
    by (simp add: evals example_defs)
qed

text \<open>
  C3. The claim holds where the two times parse, and fails on equal timestamps that do
  not: for \<^verbatim>\<open>{id: 1, updatedAt: "garbage"}\<close> on the server and
  \<^verbatim>\<open>{id: 1, updatedAt: "garbage", field: "X"}\<close> on the client both times are \<^verbatim>\<open>NaN\<close>,
  \<^verbatim>\<open>clientTime >= cloudTime\<close> is false, and the server entity is kept: the client's
  \<^verbatim>\<open>field\<close> is lost. With a timestamp that parses, the same pair keeps it.
\<close>

theorem equal_unparsable_times_keep_server:
  "exampleParse (Str ''garbage'') = None
   \<and> mergeLists exampleParse (Arr [unparsableServer]) (Arr [unparsableClient])
      = Inr (Arr [Obj [(''id'', Num 1), (''updatedAt'', Str ''garbage''),
          (''isDeleted'', Undefined)]])
   \<and> mergeLists exampleParse (Arr [tieServer]) (Arr [tieClient])
      = Inr (Arr [Obj [(''id'', Num 1), (''updatedAt'', Str ''2024-01-01T00:00:00.000Z''),
          (''field'', Str ''X''), (''isDeleted'', Undefined)]])"
  by (simp add: evals example_defs)

text \<open>
  C4. The claim fails on the code. An unparsable \<^verbatim>\<open>updatedAt\<close> is read as \<^verbatim>\<open>NaN\<close>, not
  as time 0: a server entity with one does not lose to a client entity whose timestamp
  parses, and a client entity with one does not win the tie against a server entity
  without any \<^verbatim>\<open>updatedAt\<close>. And an \<^verbatim>\<open>updatedAt\<close> that is an object with a property named
  \<^verbatim>\<open>toString\<close> makes \<^verbatim>\<open>new Date\<close> throw.
\<close>

theorem unparsable_updatedAt_is_not_epoch:
  "exampleParse (Str ''garbage'') = None
   \<and> exampleParse (Str ''2024-01-01T00:00:00.000Z'') = Some 1704067200000
   \<and> mergeLists exampleParse (Arr [garbageServer, plainServer]) (Arr [datedClient, garbageClient])
      = Inr (Arr [Obj [(''id'', Num 1), (''updatedAt'', Str ''garbage''), (''title'', Str ''server''),
            (''isDeleted'', Undefined)],
          Obj [(''id'', Num 2), (''title'', Str ''server''), (''isDeleted'', Undefined)]])
   \<and> mergeLists exampleParse (Arr [plainServer]) (Arr [shadowedClient]) = Inl TypeError"
  by (simp add: evals example_defs)

text \<open>
  C5. For logs of well-formed entries, the merged study history is the concatenation of
  the server entries and the client entries from which every entry is removed whose
  (\<^verbatim>\<open>cardId\<close>, \<^verbatim>\<open>date\<close>, \<^verbatim>\<open>rating\<close>) triple occurred earlier, the first occurrence being
  kept.
\<close>

theorem studyHistory_first_occurrences:
  assumes "list_all logEntry server" and "list_all logEntry client"
  shows "mergeStudyHistory (Arr server) (Arr client)
    = Inr (Arr (firstOccurrences [] (server @ client)))"
  using assms by (simp add: mergeStudyHistory_logs jsOr_def)

text \<open>The example of the specification: a one-entry server log, and a client log that
  repeats the entry and adds a new one, merge into exactly two entries.\<close>

theorem studyHistory_first_occurrences_witness:
  "list_all logEntry [Obj [(''cardId'', Str ''a''), (''date'', Str ''d1''), (''rating'', Num 3)]]
   \<and> list_all logEntry [Obj [(''cardId'', Str ''a''), (''date'', Str ''d1''), (''rating'', Num 3)],
        Obj [(''cardId'', Str ''b''), (''date'', Str ''d2''), (''rating'', Num 5)]]
   \<and> mergeStudyHistory
        (Arr [Obj [(''cardId'', Str ''a''), (''date'', Str ''d1''), (''rating'', Num 3)]])
        (Arr [Obj [(''cardId'', Str ''a''), (''date'', Str ''d1''), (''rating'', Num 3)],
          Obj [(''cardId'', Str ''b''), (''date'', Str ''d2''), (''rating'', Num 5)]])
      = Inr (Arr [Obj [(''cardId'', Str ''a''), (''date'', Str ''d1''), (''rating'', Num 3)],
          Obj [(''cardId'', Str ''b''), (''date'', Str ''d2''), (''rating'', Num 5)]])"
  using studyHistory_first_occurrences [of
      "[Obj [(''cardId'', Str ''a''), (''date'', Str ''d1''), (''rating'', Num 3)]]"
      "[Obj [(''cardId'', Str ''a''), (''date'', Str ''d1''), (''rating'', Num 3)],
        Obj [(''cardId'', Str ''b''), (''date'', Str ''d2''), (''rating'', Num 5)]]"]
  by (simp add: logEntry_def logKey_def field_def)

text \<open>
  C6. The \<^verbatim>\<open>userProfile\<close> of the merged bundle is the client's profile when it is
  present, and the server's when the client's is \<^verbatim>\<open>null\<close> or absent; nothing of the two
  profiles is merged or compared. (A profile is an object; of all values only \<^verbatim>\<open>false\<close>,
  \<^verbatim>\<open>0\<close> and \<^verbatim>\<open>""\<close> are outside this statement.)
\<close>

theorem userProfile_client_if_present:
  assumes "mergeData parse cloudData clientData = Inr merged"
    and "readProp clientData ''userProfile'' \<noteq> Bool False"
    and "readProp clientData ''userProfile'' \<noteq> Num 0"
    and "readProp clientData ''userProfile'' \<noteq> Str []"
  shows "readProp merged ''userProfile''
    = (if nullish (readProp clientData ''userProfile'') then readProp cloudData ''userProfile''
       else readProp clientData ''userProfile'')"
proof (cases "truthy (readProp clientData ''userProfile'')")
  case True
  then show ?thesis
    using mergeData_userProfile [OF assms(1)] by (simp add: truthy_not_nullish)
next
  case False
  then have "nullish (readProp clientData ''userProfile'')"
    using assms(2-4) by (rule falsy_cases)
  with False show ?thesis
    using mergeData_userProfile [OF assms(1)] by simp
qed


theorem userProfile_client_if_present_witness:
  "mergeData exampleParse (bundleWith darkProfile) (bundleWith Null) = Inr (bundleWith darkProfile)
   \<and> readProp (bundleWith Null) ''userProfile'' \<noteq> Bool False
   \<and> readProp (bundleWith Null) ''userProfile'' \<noteq> Num 0
   \<and> readProp (bundleWith Null) ''userProfile'' \<noteq> Str []
   \<and> readProp (bundleWith darkProfile) ''userProfile''
      = (if nullish (readProp (bundleWith Null) ''userProfile'')
         then readProp (bundleWith darkProfile) ''userProfile''
         else readProp (bundleWith Null) ''userProfile'')
   \<and> readProp (bundleWith darkProfile) ''userProfile'' = Obj [(''theme'', Str ''dark'')]
   \<and> mergeData exampleParse (bundleWith laterDarkProfile) (bundleWith lightProfile)
      = Inr (bundleWith lightProfile)"
proof (intro conjI)
  show h1: "mergeData exampleParse (bundleWith darkProfile) (bundleWith Null)
      = Inr (bundleWith darkProfile)"
    by (simp add: evals handler_evals example_defs)
  show h2: "readProp (bundleWith Null) ''userProfile'' \<noteq> Bool False"
    by (simp add: bundleWith_def field_def)
  show h3: "readProp (bundleWith Null) ''userProfile'' \<noteq> Num 0"
    by (simp add: bundleWith_def field_def)
  show h4: "readProp (bundleWith Null) ''userProfile'' \<noteq> Str []"
    by (simp add: bundleWith_def field_def)
  show "readProp (bundleWith darkProfile) ''userProfile''
      = (if nullish (readProp (bundleWith Null) ''userProfile'')
         then readProp (bundleWith darkProfile) ''userProfile''
         else readProp (bundleWith Null) ''userProfile'')"
    by (rule userProfile_client_if_present [OF h1 h2 h3 h4])
  show "readProp (bundleWith darkProfile) ''userProfile'' = Obj [(''theme'', Str ''dark'')]"
    by (simp add: bundleWith_def darkProfile_def field_def)
  show "mergeData exampleParse (bundleWith laterDarkProfile) (bundleWith lightProfile)
      = Inr (bundleWith lightProfile)"
    by (simp add: evals handler_evals example_defs)
qed









text \<open>
  C10. A \<^verbatim>\<open>sync-merge\<close> request without a \<^verbatim>\<open>data\<close> property, for a registered user
  whose record is read: the handler throws while it builds the merged bundle, the
  router answers with status 500, and the stores are left as they were.
\<close>

theorem syncMerge_without_data:
  assumes "field reqBody ''action'' = Str ''sync-merge''"
    and "field reqBody ''username'' = Str name"
    and "map_of reqBody ''data'' = None"
    and "storeInUse env st (''user:'' @ toLowerCase name) = Some u"
    and "kvConfigured env \<longrightarrow> readOk env"
  shows "proxy env toLowerCase parse reqBody st = Some ((500, ErrorMessage TypeError), st)"
proof -
  have "field (AList.delete ''action'' reqBody) ''data'' = Undefined"
    using assms(3) by (simp add: field_payload) (simp add: field_def)
  moreover have "truthy (jsOr (data u) emptyData)"
    by (simp add: jsOr_def emptyData_def)
  moreover have "getUser env toLowerCase st (Str name) = Inr (Some u)"
    using assms(4,5) by (simp add: getUser_inUse)
  ultimately show ?thesis
    using assms(1,2)
    by (simp add: proxy_def upstreamActions_def caught_def handleSyncMerge_def field_payload
        mergeData_no_client)
qed

theorem syncMerge_without_data_witness:
  "field [(''action'', Str ''sync-merge''), (''username'', Str ''bob'')] ''action''
      = Str ''sync-merge''
   \<and> field [(''action'', Str ''sync-merge''), (''username'', Str ''bob'')] ''username'' = Str ''bob''
   \<and> map_of [(''action'', Str ''sync-merge''), (''username'', Str ''bob'')] ''data'' = None
   \<and> storeInUse localEnv bobStore (''user:'' @ asciiLowerCase ''bob'') = Some bobUser
   \<and> \<not> kvConfigured localEnv
   \<and> proxy localEnv asciiLowerCase exampleParse
        [(''action'', Str ''sync-merge''), (''username'', Str ''bob'')] bobStore
      = Some ((500, ErrorMessage TypeError), bobStore)"
proof (intro conjI)
  show h1: "field [(''action'', Str ''sync-merge''), (''username'', Str ''bob'')] ''action''
      = Str ''sync-merge''"
    by (simp add: field_def)
  show h2: "field [(''action'', Str ''sync-merge''), (''username'', Str ''bob'')] ''username''
      = Str ''bob''"
    by (simp add: field_def)
  show h3: "map_of [(''action'', Str ''sync-merge''), (''username'', Str ''bob'')] ''data'' = None"
    by simp
  show h4: "storeInUse localEnv bobStore (''user:'' @ asciiLowerCase ''bob'') = Some bobUser"
    by (simp add: storeInUse_def localEnv_def bobStore_def asciiLowerCase_def lowerChar_def)
  show local: "\<not> kvConfigured localEnv"
    by (simp add: localEnv_def)
  then have h5: "kvConfigured localEnv \<longrightarrow> readOk localEnv"
    by simp
  show "proxy localEnv asciiLowerCase exampleParse
        [(''action'', Str ''sync-merge''), (''username'', Str ''bob'')] bobStore
      = Some ((500, ErrorMessage TypeError), bobStore)"
    by (rule syncMerge_without_data [where toLowerCase = asciiLowerCase, OF h1 h2 h3 h4 h5])
qed

end
